theory Spec2Isabelle
  imports
    Complex_Main
    "HOL-Library.Char_ord"
    "HOL-Library.List_Lexorder"
    "HOL-Library.Multiset"
    "HOL-Library.Option_ord"
    "HOL-Library.Product_Lexorder"
    "HOL-Library.Sublist"
begin

section \<open>The listings pipeline of ingest.py\<close>

text \<open>
  The program reads a listings table and a category lookup table with pandas, normalises
  and validates the listings, removes duplicates, joins the lookup and reports statistics.
  A data frame is modelled by the list of its rows; a column operation of pandas is a
  \<open>map\<close> or a \<open>filter\<close> over that list. A missing value (NaN, NaT, \<open>pd.NA\<close>) is
  \<open>None\<close>. Text is a list of bytes and the case mappings are those of ASCII; a cell that
  pandas read as a number is represented by its text. Prices are 64-bit floats in the
  program and real numbers here: the orderings agree, the arithmetic of the statistics is
  exact here.
\<close>

subsection \<open>Python string methods on ASCII text\<close>

definition is_space :: "char \<Rightarrow> bool" where
  "is_space c \<longleftrightarrow> (of_char c :: nat) \<in> {9, 10, 11, 12, 13, 28, 29, 30, 31, 32}"

definition is_upper :: "char \<Rightarrow> bool" where
  "is_upper c \<longleftrightarrow> 65 \<le> (of_char c :: nat) \<and> (of_char c :: nat) \<le> 90"

definition is_lower :: "char \<Rightarrow> bool" where
  "is_lower c \<longleftrightarrow> 97 \<le> (of_char c :: nat) \<and> (of_char c :: nat) \<le> 122"

definition is_cased :: "char \<Rightarrow> bool" where
  "is_cased c \<longleftrightarrow> is_upper c \<or> is_lower c"

definition to_lower :: "char \<Rightarrow> char" where
  "to_lower c = (if is_upper c then char_of ((of_char c :: nat) + 32) else c)"

definition to_upper :: "char \<Rightarrow> char" where
  "to_upper c = (if is_lower c then char_of ((of_char c :: nat) - 32) else c)"

text \<open>\<open>str.strip()\<close>: leading and trailing whitespace removed.\<close>

definition strip :: "string \<Rightarrow> string" where
  "strip s = rev (dropWhile is_space (rev (dropWhile is_space s)))"

text \<open>\<open>str.lower()\<close>.\<close>

definition lower :: "string \<Rightarrow> string" where
  "lower s = map to_lower s"

text \<open>
  \<open>str.title()\<close>: CPython walks the string with the flag "the previous character is
  cased"; a character after a cased one is lower-cased, any other is title-cased.
\<close>

fun title_from :: "bool \<Rightarrow> string \<Rightarrow> string" where
  "title_from previous_is_cased [] = []"
| "title_from previous_is_cased (c # cs) =
     (if previous_is_cased then to_lower c else to_upper c) # title_from (is_cased c) cs"

definition title :: "string \<Rightarrow> string" where
  "title s = title_from False s"

subsection \<open>Cells, rows and frames\<close>

type_synonym cell = "string option"

text \<open>A calendar date is (year, month, day); the lexicographic order is the order of dates.\<close>

type_synonym cal_date = "nat \<times> nat \<times> nat"

text \<open>The listings as \<open>pd.read_csv\<close> returns them: the header and the rows of cells.\<close>

record raw_frame =
  columns :: "string list"
  data :: "cell list list"

text \<open>A row of the typed frame: the seven required columns and the two derived ones.\<close>

record listing =
  date :: cell
  seller_id :: cell
  region :: cell
  category :: cell
  item_id :: cell
  price_gbp :: cell
  condition :: cell
  date_parsed :: "cal_date option"
  price_gbp_num :: "real option"

record lookup_row =
  lk_category :: cell
  lk_segment :: cell

record enriched = listing +
  segment :: cell

text \<open>A row of the clean output: \<open>out_cols\<close> after the renaming of line 154.\<close>

record out_row =
  o_date :: "cal_date option"
  o_seller_id :: cell
  o_region :: cell
  o_category :: cell
  o_segment :: cell
  o_item_id :: cell
  o_price_gbp :: "real option"
  o_condition :: cell

datatype error =
    SystemExit "string list"
  | ValueError
  | TypeError
  | AttributeError
  | KeyError string

definition REQUIRED_COLS :: "string list" where
  "REQUIRED_COLS = [''date'', ''seller_id'', ''region'', ''category'', ''item_id'',
                    ''price_gbp'', ''condition'']"

definition VALID_REGIONS :: "string set" where
  "VALID_REGIONS = {''North'', ''South'', ''East'', ''West''}"

definition VALID_CONDITION :: "string set" where
  "VALID_CONDITION = {''new'', ''used'', ''refurbished''}"

subsection \<open>Schema Normalizer\<close>

text \<open>\<open>standardise_columns\<close>: every header name stripped and lower-cased.\<close>

definition standardise_columns :: "raw_frame \<Rightarrow> raw_frame" where
  "standardise_columns df = df\<lparr>columns := map (\<lambda>c. lower (strip c)) (columns df)\<rparr>"

text \<open>
  \<open>df[c]\<close> at one row: the cell under the first column named \<open>c\<close>; a row shorter than
  the header is padded with missing values, as \<open>read_csv\<close> does.
\<close>

definition get_cell :: "string list \<Rightarrow> cell list \<Rightarrow> string \<Rightarrow> cell" where
  "get_cell cols row c = (case map_of (zip cols row) c of None \<Rightarrow> None | Some v \<Rightarrow> v)"

text \<open>
  \<open>coerce_types\<close>. The two parsers of pandas, \<open>pd.to_datetime\<close> with
  \<open>errors="coerce", format="%Y-%m-%d"\<close> and \<open>pd.to_numeric\<close> with \<open>errors="coerce"\<close>,
  are parameters: each maps a cell to a value or to the missing value, and never raises.
\<close>

definition coerce_row ::
  "(cell \<Rightarrow> cal_date option) \<Rightarrow> (cell \<Rightarrow> real option) \<Rightarrow> string list \<Rightarrow> cell list \<Rightarrow> listing"
where
  "coerce_row to_datetime to_numeric cols row =
     \<lparr> date = get_cell cols row ''date'',
       seller_id = map_option strip (get_cell cols row ''seller_id''),
       region = map_option title (map_option strip (get_cell cols row ''region'')),
       category = map_option title (map_option strip (get_cell cols row ''category'')),
       item_id = map_option strip (get_cell cols row ''item_id''),
       price_gbp = get_cell cols row ''price_gbp'',
       condition = map_option lower (map_option strip (get_cell cols row ''condition'')),
       date_parsed = to_datetime (get_cell cols row ''date''),
       price_gbp_num = to_numeric (get_cell cols row ''price_gbp'') \<rparr>"

text \<open>
  When two header names standardise to the same required name, \<open>df[c]\<close> is a frame and not
  a column: \<open>pd.to_datetime\<close> raises ValueError on it, \<open>pd.to_numeric\<close> TypeError, and a
  frame has no \<open>.str\<close> accessor.
\<close>

definition coerce_types ::
  "(cell \<Rightarrow> cal_date option) \<Rightarrow> (cell \<Rightarrow> real option) \<Rightarrow> raw_frame \<Rightarrow> error + listing list"
where
  "coerce_types to_datetime to_numeric df =
     (if 1 < count_list (columns df) ''date'' then Inl ValueError
      else if 1 < count_list (columns df) ''price_gbp'' then Inl TypeError
      else if \<exists>c \<in> set [''seller_id'', ''region'', ''category'', ''item_id'', ''condition''].
                1 < count_list (columns df) c then Inl AttributeError
      else Inr (map (coerce_row to_datetime to_numeric (columns df)) (data df)))"

subsection \<open>Validator\<close>

record issues =
  missing_nulls :: "(string \<times> int) list"
  missing_empty :: "(string \<times> int) list"
  invalid_date :: int
  invalid_price :: int
  invalid_region :: int
  invalid_condition :: int

definition get_col :: "string \<Rightarrow> 'a listing_scheme \<Rightarrow> cell" where
  "get_col c r =
     (if c = ''date'' then date r
      else if c = ''seller_id'' then seller_id r
      else if c = ''region'' then region r
      else if c = ''category'' then category r
      else if c = ''item_id'' then item_id r
      else if c = ''price_gbp'' then price_gbp r
      else if c = ''condition'' then condition r
      else None)"

definition isna :: "'a option \<Rightarrow> bool" where
  "isna x \<longleftrightarrow> x = None"

text \<open>\<open>int(s.sum())\<close> of a boolean column.\<close>

definition count_true :: "bool list \<Rightarrow> int" where
  "count_true bs = int (length (filter (\<lambda>b. b) bs))"

text \<open>\<open>astype(str)\<close> writes a missing value as text (\<open>nan\<close>, or \<open><NA>\<close>): it is never empty.\<close>

definition astype_str :: "cell \<Rightarrow> string" where
  "astype_str x = (case x of None \<Rightarrow> ''nan'' | Some s \<Rightarrow> s)"

definition isin :: "cell \<Rightarrow> string set \<Rightarrow> bool" where
  "isin x S = (case x of None \<Rightarrow> False | Some s \<Rightarrow> s \<in> S)"

definition row_invalid_date :: "'a listing_scheme \<Rightarrow> bool" where
  "row_invalid_date r = isna (date_parsed r)"

definition row_invalid_price :: "'a listing_scheme \<Rightarrow> bool" where
  "row_invalid_price r =
     (isna (price_gbp_num r) \<or> (case price_gbp_num r of None \<Rightarrow> False | Some p \<Rightarrow> p \<le> 0))"

definition row_invalid_region :: "'a listing_scheme \<Rightarrow> bool" where
  "row_invalid_region r = (\<not> isin (region r) VALID_REGIONS)"

definition row_invalid_condition :: "'a listing_scheme \<Rightarrow> bool" where
  "row_invalid_condition r = (\<not> isin (condition r) VALID_CONDITION)"

text \<open>
  A comparison on a nullable string column is a nullable boolean (missing where the
  string is missing), and \<open>&\<close> on nullable booleans is Kleene's conjunction.
\<close>

fun kleene_and :: "bool option \<Rightarrow> bool option \<Rightarrow> bool option" where
  "kleene_and (Some False) _ = Some False"
| "kleene_and _ (Some False) = Some False"
| "kleene_and (Some True) (Some True) = Some True"
| "kleene_and _ _ = None"

definition kleene_not :: "bool option \<Rightarrow> bool option" where
  "kleene_not b = map_option Not b"

definition str_ne :: "cell \<Rightarrow> string \<Rightarrow> bool option" where
  "str_ne x t = map_option (\<lambda>s. s \<noteq> t) x"

definition essential :: "string list" where
  "essential = [''date'', ''seller_id'', ''category'', ''item_id'', ''price_gbp'']"

definition essential_step :: "'a listing_scheme \<Rightarrow> string \<Rightarrow> bool option \<Rightarrow> bool option" where
  "essential_step r c m =
     kleene_and
       (kleene_and
          (kleene_and m (Some (\<not> isna (get_col c r))))
          (Some (\<not> isna (map_option strip (get_col c r)))))
       (str_ne (map_option strip (get_col c r)) [])"

definition row_mask_valid :: "'a listing_scheme \<Rightarrow> bool option" where
  "row_mask_valid r =
     fold (essential_step r) essential
       (Some (\<not> row_invalid_date r \<and> \<not> row_invalid_price r \<and>
              \<not> row_invalid_region r \<and> \<not> row_invalid_condition r))"

definition validate :: "'a listing_scheme list \<Rightarrow> bool option list \<times> issues" where
  "validate df =
     (let null_counts = map (\<lambda>c. (c, count_true (map (\<lambda>r. isna (get_col c r)) df))) REQUIRED_COLS;
          empty_counts =
            map (\<lambda>c. (c, count_true (map (\<lambda>r. strip (astype_str (get_col c r)) = []) df)))
              REQUIRED_COLS
      in (map row_mask_valid df,
          \<lparr> missing_nulls = null_counts,
            missing_empty = empty_counts,
            invalid_date = count_true (map row_invalid_date df),
            invalid_price = count_true (map row_invalid_price df),
            invalid_region = count_true (map row_invalid_region df),
            invalid_condition = count_true (map row_invalid_condition df) \<rparr>))"

text \<open>\<open>df[mask]\<close>: the rows where the mask is true.\<close>

definition select_rows :: "bool option list \<Rightarrow> 'a list \<Rightarrow> 'a list" where
  "select_rows msk df = map snd (filter (\<lambda>(m, r). m = Some True) (zip msk df))"

subsection \<open>Deduplicator\<close>

text \<open>
  \<open>sort_values\<close> on several columns is a stable lexicographic sort that puts missing
  values last in each column; \<^const>\<open>sort_key\<close> is a stable insertion sort.
\<close>

definition na_last :: "'a option \<Rightarrow> bool \<times> 'a option" where
  "na_last x = (x = None, x)"

definition natural_key :: "'a listing_scheme \<Rightarrow> cal_date option \<times> cell \<times> cell" where
  "natural_key r = (date_parsed r, seller_id r, item_id r)"

definition sort_cols ::
  "'a listing_scheme \<Rightarrow>
     (bool \<times> cal_date option) \<times> (bool \<times> cell) \<times> (bool \<times> cell) \<times> (bool \<times> real option)"
where
  "sort_cols r =
     (na_last (date_parsed r), na_last (seller_id r), na_last (item_id r),
      na_last (price_gbp_num r))"

definition sort_values :: "'a listing_scheme list \<Rightarrow> 'a listing_scheme list" where
  "sort_values df = sort_key sort_cols df"

text \<open>
  \<open>drop_duplicates(keep="first")\<close>: a row is dropped when its key has been seen in an
  earlier row; missing values are equal to each other in a key.
\<close>

fun drop_seen :: "('a \<Rightarrow> 'k) \<Rightarrow> 'k list \<Rightarrow> 'a list \<Rightarrow> 'a list" where
  "drop_seen key seen [] = []"
| "drop_seen key seen (r # rs) =
     (if key r \<in> set seen then drop_seen key seen rs
      else r # drop_seen key (key r # seen) rs)"

definition drop_duplicates :: "'a listing_scheme list \<Rightarrow> 'a listing_scheme list" where
  "drop_duplicates df = drop_seen natural_key [] df"

definition dedupe :: "'a listing_scheme list \<Rightarrow> 'a listing_scheme list \<times> int" where
  "dedupe df =
     (let len_before = length df;
          df1 = sort_values df;
          df2 = drop_duplicates df1;
          removed = int len_before - int (length df2)
      in (df2, removed))"

subsection \<open>Enricher\<close>

text \<open>
  A left merge on \<open>category\<close>: every row of the left frame in its order, once for each
  lookup row with an equal key, in the lookup's order, and once with a missing segment
  when no lookup row has an equal key. Missing keys are equal to each other.
\<close>

definition with_segment :: "listing \<Rightarrow> cell \<Rightarrow> enriched" where
  "with_segment r s =
     \<lparr> date = date r, seller_id = seller_id r, region = region r, category = category r,
       item_id = item_id r, price_gbp = price_gbp r, condition = condition r,
       date_parsed = date_parsed r, price_gbp_num = price_gbp_num r, segment = s \<rparr>"

definition merge_left :: "listing list \<Rightarrow> lookup_row list \<Rightarrow> enriched list" where
  "merge_left df lk =
     concat (map (\<lambda>r.
       (let ms = filter (\<lambda>l. lk_category l = category r) lk
        in if ms = [] then [with_segment r None]
           else map (\<lambda>l. with_segment r (lk_segment l)) ms)) df)"

definition enrich :: "listing list \<Rightarrow> lookup_row list \<Rightarrow> enriched list" where
  "enrich df lk =
     (let lk1 = map (\<lambda>l. l\<lparr>lk_category := map_option title (lk_category l)\<rparr>) lk
      in merge_left df lk1)"

subsection \<open>Quality Reporter\<close>

text \<open>
  The frame \<open>quality_stats\<close> reads: its length and the columns it looks at, the two price
  columns and \<open>segment\<close> present or not.
\<close>

record stats_frame =
  sf_len :: nat
  sf_price_gbp :: "real option list option"
  sf_price_gbp_num :: "real option list option"
  sf_region :: "cell list"
  sf_category :: "cell list"
  sf_segment :: "cell list option"

record stats =
  row_count :: int
  price_min :: "real option"
  price_max :: "real option"
  price_avg :: "real option"
  price_p50 :: "real option"
  price_p95 :: "real option"
  by_region :: "cell \<rightharpoonup> int"
  by_category :: "cell \<rightharpoonup> int"
  by_segment :: "cell \<rightharpoonup> int"

definition dropna :: "'a option list \<Rightarrow> 'a list" where
  "dropna xs = map the (filter (\<lambda>x. x \<noteq> None) xs)"

text \<open>
  \<open>Series.quantile(q)\<close> with the default \<open>interpolation="linear"\<close>: on the sorted values,
  the virtual index is \<open>q * (n - 1)\<close>, and the result lies between the order statistics
  below and above it, at the fractional part of the index.
\<close>

definition quantile :: "real list \<Rightarrow> real \<Rightarrow> real" where
  "quantile xs q =
     (let s = sort xs;
          h = q * real (length s - 1);
          lo = nat \<lfloor>h\<rfloor>;
          hi = min (lo + 1) (length s - 1);
          g = h - real lo
      in s ! lo + (s ! hi - s ! lo) * g)"

definition mean :: "real list \<Rightarrow> real" where
  "mean xs = sum_list xs / real (length xs)"

text \<open>\<open>value_counts(dropna=False).to_dict()\<close>: every value that occurs, the missing one too.\<close>

definition value_counts :: "cell list \<Rightarrow> (cell \<rightharpoonup> int)" where
  "value_counts xs = (\<lambda>k. if k \<in> set xs then Some (int (count_list xs k)) else None)"

definition quality_stats :: "stats_frame \<Rightarrow> error + stats" where
  "quality_stats df =
     (case (case sf_price_gbp df of
              Some col \<Rightarrow> Inr (dropna col)
            | None \<Rightarrow> (case sf_price_gbp_num df of
                         Some col \<Rightarrow> Inr (dropna col)
                       | None \<Rightarrow> Inl (KeyError ''price_gbp_num''))) of
        Inl e \<Rightarrow> Inl e
      | Inr price \<Rightarrow>
          Inr \<lparr> row_count = int (sf_len df),
                price_min = (if length price \<noteq> 0 then Some (Min (set price)) else None),
                price_max = (if length price \<noteq> 0 then Some (Max (set price)) else None),
                price_avg = (if length price \<noteq> 0 then Some (mean price) else None),
                price_p50 = (if length price \<noteq> 0 then Some (quantile price (1 / 2)) else None),
                price_p95 = (if length price \<noteq> 0 then Some (quantile price (95 / 100)) else None),
                by_region = value_counts (sf_region df),
                by_category = value_counts (sf_category df),
                by_segment = (case sf_segment df of
                                Some col \<Rightarrow> value_counts col
                              | None \<Rightarrow> Map.empty) \<rparr>)"

subsection \<open>The run\<close>

record dq_report =
  input_rows :: int
  validation_issues :: issues
  rows_removed_invalid :: int
  rows_removed_duplicates :: int
  output_stats :: stats

text \<open>The selection of \<open>out_cols\<close> and the renaming of the two typed columns.\<close>

definition out_of :: "enriched \<Rightarrow> out_row" where
  "out_of e =
     \<lparr> o_date = date_parsed e, o_seller_id = seller_id e, o_region = region e,
       o_category = category e, o_segment = segment e, o_item_id = item_id e,
       o_price_gbp = price_gbp_num e, o_condition = condition e \<rparr>"

definition frame_of :: "out_row list \<Rightarrow> stats_frame" where
  "frame_of df_out =
     \<lparr> sf_len = length df_out,
       sf_price_gbp = Some (map o_price_gbp df_out),
       sf_price_gbp_num = None,
       sf_region = map o_region df_out,
       sf_category = map o_category df_out,
       sf_segment = Some (map o_segment df_out) \<rparr>"

text \<open>
  \<open>main\<close>, from the two frames to the three artefacts: the clean table, the report and
  the invalid rows. A listings column named \<open>segment\<close> makes the merge rename both
  \<open>segment\<close> columns, and the selection of \<open>out_cols\<close> raises KeyError.
\<close>

definition main ::
  "(cell \<Rightarrow> cal_date option) \<Rightarrow> (cell \<Rightarrow> real option) \<Rightarrow> raw_frame \<Rightarrow> lookup_row list \<Rightarrow>
     error + (out_row list \<times> dq_report \<times> listing list)"
where
  "main to_datetime to_numeric df_raw0 lk =
     (let df_raw = standardise_columns df_raw0;
          missing_cols = filter (\<lambda>c. c \<notin> set (columns df_raw)) REQUIRED_COLS
      in if missing_cols \<noteq> [] then Inl (SystemExit missing_cols)
         else case coerce_types to_datetime to_numeric df_raw of
           Inl e \<Rightarrow> Inl e
         | Inr df_typed \<Rightarrow>
            (let (valid_mask, issues) = validate df_typed;
                 df_invalid = select_rows (map kleene_not valid_mask) df_typed;
                 df_valid = select_rows valid_mask df_typed;
                 (df_valid1, dup_removed) = dedupe df_valid;
                 df_enriched = enrich df_valid1 lk
             in if ''segment'' \<in> set (columns df_raw) then Inl (KeyError ''segment'')
                else (let df_out = map out_of df_enriched
                      in case quality_stats (frame_of df_out) of
                           Inl e \<Rightarrow> Inl e
                         | Inr st \<Rightarrow>
                             Inr (df_out,
                                  \<lparr> input_rows = int (length (data df_raw)),
                                    validation_issues = issues,
                                    rows_removed_invalid = int (length df_invalid),
                                    rows_removed_duplicates = dup_removed,
                                    output_stats = st \<rparr>,
                                  df_invalid))))"

subsection \<open>Notions derived from the run\<close>

text \<open>The lookup rows that the merge matches to a row: those with its category, once title-cased.\<close>

definition matches :: "lookup_row list \<Rightarrow> listing \<Rightarrow> lookup_row list" where
  "matches lk r = filter (\<lambda>l. map_option title (lk_category l) = category r) lk"

text \<open>\<open>missing_cols\<close> of \<open>main\<close>, as a function of the listings.\<close>

definition missing_cols_of :: "raw_frame \<Rightarrow> string list" where
  "missing_cols_of df_raw0 =
     filter (\<lambda>c. c \<notin> set (columns (standardise_columns df_raw0))) REQUIRED_COLS"

text \<open>\<open>df_typed\<close> of \<open>main\<close>, when \<open>coerce_types\<close> returns.\<close>

definition typed_rows ::
  "(cell \<Rightarrow> cal_date option) \<Rightarrow> (cell \<Rightarrow> real option) \<Rightarrow> raw_frame \<Rightarrow> listing list" where
  "typed_rows to_datetime to_numeric df_raw0 =
     map (coerce_row to_datetime to_numeric (columns (standardise_columns df_raw0))) (data df_raw0)"

text \<open>What \<open>quality_stats\<close> returns on the clean table, which has \<open>price_gbp\<close> and \<open>segment\<close>.\<close>

definition stats_of :: "out_row list \<Rightarrow> stats" where
  "stats_of df_out =
     (let price = dropna (map o_price_gbp df_out) in
      \<lparr> row_count = int (length df_out),
        price_min = (if price \<noteq> [] then Some (Min (set price)) else None),
        price_max = (if price \<noteq> [] then Some (Max (set price)) else None),
        price_avg = (if price \<noteq> [] then Some (mean price) else None),
        price_p50 = (if price \<noteq> [] then Some (quantile price (1 / 2)) else None),
        price_p95 = (if price \<noteq> [] then Some (quantile price (95 / 100)) else None),
        by_region = value_counts (map o_region df_out),
        by_category = value_counts (map o_category df_out),
        by_segment = value_counts (map o_segment df_out) \<rparr>)"

text \<open>The number of rows that the Validator marks valid.\<close>

definition valid_row_count ::
  "(cell \<Rightarrow> cal_date option) \<Rightarrow> (cell \<Rightarrow> real option) \<Rightarrow> raw_frame \<Rightarrow> int" where
  "valid_row_count to_datetime to_numeric df_raw0 =
     int (length (filter (\<lambda>m. m = Some True)
       (fst (validate (typed_rows to_datetime to_numeric df_raw0)))))"

subsection \<open>Predicates of the specification\<close>

text \<open>A pre-coercion field is present and, trimmed, not empty.\<close>

definition present_nonempty :: "cell \<Rightarrow> bool" where
  "present_nonempty x = (case x of None \<Rightarrow> False | Some s \<Rightarrow> strip s \<noteq> [])"

text \<open>The validity of a row in the words of the specification.\<close>

definition valid_row :: "'a listing_scheme \<Rightarrow> bool" where
  "valid_row r \<longleftrightarrow>
     date_parsed r \<noteq> None \<and>
     (case price_gbp_num r of None \<Rightarrow> False | Some p \<Rightarrow> 0 < p) \<and>
     (case region r of None \<Rightarrow> False | Some s \<Rightarrow> s \<in> VALID_REGIONS) \<and>
     (case condition r of None \<Rightarrow> False | Some s \<Rightarrow> s \<in> VALID_CONDITION) \<and>
     present_nonempty (date r) \<and> present_nonempty (seller_id r) \<and>
     present_nonempty (category r) \<and> present_nonempty (item_id r) \<and>
     present_nonempty (price_gbp r)"

text \<open>Text without whitespace at either end.\<close>

definition trimmed :: "string \<Rightarrow> bool" where
  "trimmed s \<longleftrightarrow> s = [] \<or> (\<not> is_space (hd s) \<and> \<not> is_space (last s))"

definition lower_cased :: "string \<Rightarrow> bool" where
  "lower_cased s \<longleftrightarrow> list_all (\<lambda>c. \<not> is_upper c) s"

text \<open>
  Title case: a letter is upper case when it starts a run of letters and lower case
  inside one.
\<close>

definition title_cased :: "string \<Rightarrow> bool" where
  "title_cased s \<longleftrightarrow>
     (\<forall>i \<in> {0..<length s}. is_cased (s ! i) \<longrightarrow>
        (if 0 < i \<and> is_cased (s ! (i - 1)) then is_lower (s ! i) else is_upper (s ! i)))"

definition cell_holds :: "(string \<Rightarrow> bool) \<Rightarrow> cell \<Rightarrow> bool" where
  "cell_holds P x = (case x of None \<Rightarrow> True | Some s \<Rightarrow> P s)"

text \<open>The invariant on the five columns that \<open>coerce_types\<close> rewrites.\<close>

definition normalised :: "'a listing_scheme \<Rightarrow> bool" where
  "normalised r \<longleftrightarrow>
     cell_holds title_cased (region r) \<and> cell_holds title_cased (category r) \<and>
     cell_holds lower_cased (condition r) \<and>
     cell_holds trimmed (seller_id r) \<and> cell_holds trimmed (region r) \<and>
     cell_holds trimmed (category r) \<and> cell_holds trimmed (item_id r) \<and>
     cell_holds trimmed (condition r)"

text \<open>The invariant with the raw \<open>date\<close> and \<open>price_gbp\<close> trimmed as well.\<close>

definition normalised_with_raw :: "'a listing_scheme \<Rightarrow> bool" where
  "normalised_with_raw r \<longleftrightarrow>
     normalised r \<and> cell_holds trimmed (date r) \<and> cell_holds trimmed (price_gbp r)"

text \<open>The sort columns of a row in which none of them is missing.\<close>

definition plain_key :: "'a listing_scheme \<Rightarrow> cal_date \<times> string \<times> string \<times> real" where
  "plain_key r = (the (date_parsed r), the (seller_id r), the (item_id r), the (price_gbp_num r))"

text \<open>The validity of the specification on the columns of the clean output.\<close>

definition valid_out :: "out_row \<Rightarrow> bool" where
  "valid_out r \<longleftrightarrow>
     o_date r \<noteq> None \<and>
     (case o_price_gbp r of None \<Rightarrow> False | Some p \<Rightarrow> 0 < p) \<and>
     (case o_region r of None \<Rightarrow> False | Some s \<Rightarrow> s \<in> VALID_REGIONS) \<and>
     (case o_condition r of None \<Rightarrow> False | Some s \<Rightarrow> s \<in> VALID_CONDITION) \<and>
     present_nonempty (o_seller_id r) \<and> present_nonempty (o_category r) \<and>
     present_nonempty (o_item_id r)"

text \<open>
  Linear interpolation between order statistics: on the sorted values \<open>s\<close>, the value at
  the position \<open>h\<close>, between the order statistics below and above \<open>h\<close>.
\<close>

definition interpolate :: "real list \<Rightarrow> real \<Rightarrow> real" where
  "interpolate s h =
     (let k = nat \<lfloor>h\<rfloor>; t = h - real k
      in if t = 0 then s ! k else (1 - t) * s ! k + t * s ! (k + 1))"

text \<open>The median: the middle value, or the mean of the two middle values.\<close>

definition median :: "real list \<Rightarrow> real" where
  "median xs =
     (let s = sort xs; n = length s
      in if odd n then s ! (n div 2) else (s ! (n div 2 - 1) + s ! (n div 2)) / 2)"

text \<open>The bucket of the missing value in a frequency mapping: there when a value is missing.\<close>

definition null_bucket :: "cell list \<Rightarrow> int option" where
  "null_bucket col =
     (if None \<in> set col then Some (int (length (filter (\<lambda>x. x = None) col))) else None)"

subsection \<open>Sample inputs\<close>

text \<open>The row of the first scenario, after normalisation.\<close>

definition row_tools :: listing where
  "row_tools =
     \<lparr> date = Some ''2024-01-05'', seller_id = Some ''S1'', region = Some ''North'',
       category = Some ''Tools'', item_id = Some ''I1'', price_gbp = Some ''19.99'',
       condition = Some ''new'', date_parsed = Some (2024, 1, 5),
       price_gbp_num = Some (1999 / 100) \<rparr>"

text \<open>A row that fails three rules at once: no date, a negative price, an unknown region.\<close>

definition row_broken :: listing where
  "row_broken =
     \<lparr> date = None, seller_id = Some ''S2'', region = Some ''Mars'',
       category = Some ''Tools'', item_id = Some ''I2'', price_gbp = Some ''-5'',
       condition = Some ''used'', date_parsed = None, price_gbp_num = Some (- 5) \<rparr>"

text \<open>
  Two parsers for the sample inputs: a table of the texts that the samples use, every
  other cell is not parseable.
\<close>

definition sample_to_datetime :: "cell \<Rightarrow> cal_date option" where
  "sample_to_datetime c =
     (if c = Some ''2024-01-05'' then Some (2024, 1, 5)
      else if c = Some ''2024-01-06'' then Some (2024, 1, 6)
      else None)"

definition sample_to_numeric :: "cell \<Rightarrow> real option" where
  "sample_to_numeric c =
     (if c = Some ''19.99'' then Some (1999 / 100)
      else if c = Some ''10.00'' then Some 10
      else if c = Some ''12.00'' then Some 12
      else if c = Some ''-5'' then Some (- 5)
      else None)"

text \<open>A frame whose header and cells carry whitespace and mixed case.\<close>

definition frame_untrimmed :: raw_frame where
  "frame_untrimmed =
     \<lparr> columns = [''Date'', '' seller_id'', ''REGION'', ''category'', ''item_id'', ''price_gbp'',
                   ''condition''],
       data = [[Some '' 2024-01-05'', Some '' S1 '', Some ''north'', Some ''power tools '',
                Some ''I1'', Some ''19.99 '', Some ''NEW'']] \<rparr>"

definition row_untrimmed :: listing where
  "row_untrimmed =
     \<lparr> date = Some '' 2024-01-05'', seller_id = Some ''S1'', region = Some ''North'',
       category = Some ''Power Tools'', item_id = Some ''I1'', price_gbp = Some ''19.99 '',
       condition = Some ''new'', date_parsed = None, price_gbp_num = None \<rparr>"

text \<open>
  Three valid rows with one natural key, at prices 12, 10 and 10, and a fourth row with
  an earlier item; and what the Deduplicator makes of them.
\<close>

definition table_dups :: "listing list" where
  "table_dups =
     [row_tools\<lparr>price_gbp_num := Some 12\<rparr>,
      row_tools\<lparr>price_gbp_num := Some 10, region := Some ''South''\<rparr>,
      row_tools\<lparr>price_gbp_num := Some 10, region := Some ''East''\<rparr>,
      row_tools\<lparr>item_id := Some ''I0''\<rparr>]"

definition table_dups_out :: "listing list" where
  "table_dups_out =
     [row_tools\<lparr>item_id := Some ''I0''\<rparr>,
      row_tools\<lparr>price_gbp_num := Some 10, region := Some ''South''\<rparr>]"

text \<open>A lookup whose two categories are one key once title-cased, and one without duplicates.\<close>

definition lookup_dups :: "lookup_row list" where
  "lookup_dups = [\<lparr>lk_category = Some ''Tools'', lk_segment = Some ''Hardware''\<rparr>,
                  \<lparr>lk_category = Some ''tools'', lk_segment = Some ''DIY''\<rparr>]"

definition lookup_plain :: "lookup_row list" where
  "lookup_plain = [\<lparr>lk_category = Some ''tools'', lk_segment = Some ''Hardware''\<rparr>]"

text \<open>
  A listings frame of five rows: two valid rows with one natural key, a negative price,
  an unparseable date, and a valid row whose category is not in the lookup; its typed
  rows, the rows kept by the Deduplicator, and the artefacts of the run.
\<close>

definition frame_demo :: raw_frame where
  "frame_demo =
     \<lparr> columns = [''Date'', '' seller_id'', ''REGION'', ''category'', ''item_id'', ''price_gbp'',
                   ''condition'', ''notes''],
       data =
         [[Some ''2024-01-05'', Some ''S1'', Some ''north'', Some ''tools'', Some ''I1'',
           Some ''19.99'', Some ''new'', None],
          [Some ''2024-01-05'', Some ''S1'', Some ''North'', Some ''tools'', Some ''I1'',
           Some ''10.00'', Some ''used'', Some ''cheaper''],
          [Some ''2024-01-06'', Some ''S2'', Some ''south'', Some ''gadgets'', Some ''I2'',
           Some ''-5'', Some ''new'', None],
          [Some ''yesterday'', Some ''S3'', Some ''east'', Some ''Gadgets'', Some ''I3'',
           Some ''12.00'', Some ''new'', None],
          [Some ''2024-01-06'', Some ''S4'', Some ''West'', Some ''gadgets'', Some ''I4'',
           Some ''12.00'', Some ''refurbished'', None]] \<rparr>"

definition demo1 :: listing where
  "demo1 = \<lparr> date = Some ''2024-01-05'', seller_id = Some ''S1'', region = Some ''North'',
       category = Some ''Tools'', item_id = Some ''I1'', price_gbp = Some ''19.99'',
       condition = Some ''new'', date_parsed = Some (2024, 1, 5),
       price_gbp_num = Some (1999 / 100) \<rparr>"

definition demo2 :: listing where
  "demo2 = \<lparr> date = Some ''2024-01-05'', seller_id = Some ''S1'', region = Some ''North'',
       category = Some ''Tools'', item_id = Some ''I1'', price_gbp = Some ''10.00'',
       condition = Some ''used'', date_parsed = Some (2024, 1, 5),
       price_gbp_num = Some 10 \<rparr>"

definition demo3 :: listing where
  "demo3 = \<lparr> date = Some ''2024-01-06'', seller_id = Some ''S2'', region = Some ''South'',
       category = Some ''Gadgets'', item_id = Some ''I2'', price_gbp = Some ''-5'',
       condition = Some ''new'', date_parsed = Some (2024, 1, 6),
       price_gbp_num = Some (- 5) \<rparr>"

definition demo4 :: listing where
  "demo4 = \<lparr> date = Some ''yesterday'', seller_id = Some ''S3'', region = Some ''East'',
       category = Some ''Gadgets'', item_id = Some ''I3'', price_gbp = Some ''12.00'',
       condition = Some ''new'', date_parsed = None,
       price_gbp_num = Some 12 \<rparr>"

definition demo5 :: listing where
  "demo5 = \<lparr> date = Some ''2024-01-06'', seller_id = Some ''S4'', region = Some ''West'',
       category = Some ''Gadgets'', item_id = Some ''I4'', price_gbp = Some ''12.00'',
       condition = Some ''refurbished'', date_parsed = Some (2024, 1, 6),
       price_gbp_num = Some 12 \<rparr>"

definition demo_rows :: "listing list" where
  "demo_rows = [demo1, demo2, demo3, demo4, demo5]"

definition demo_kept :: "listing list" where
  "demo_kept = [demo2, demo5]"

definition demo_issues :: issues where
  "demo_issues =
     \<lparr> missing_nulls = map (\<lambda>c. (c, 0)) REQUIRED_COLS,
       missing_empty = map (\<lambda>c. (c, 0)) REQUIRED_COLS,
       invalid_date = 1, invalid_price = 1, invalid_region = 0, invalid_condition = 0 \<rparr>"

definition demo_out :: "out_row list" where
  "demo_out = map out_of [with_segment demo2 (Some ''Hardware''), with_segment demo5 None]"

definition demo_out_dups :: "out_row list" where
  "demo_out_dups = map out_of [with_segment demo2 (Some ''Hardware''),
      with_segment demo2 (Some ''DIY''), with_segment demo5 None]"

definition demo_report :: "out_row list \<Rightarrow> dq_report" where
  "demo_report df_out =
     \<lparr> input_rows = 5, validation_issues = demo_issues, rows_removed_invalid = 2,
       rows_removed_duplicates = 1, output_stats = stats_of df_out \<rparr>"


section \<open>Properties\<close>

subsection \<open>Validator\<close>

lemma kleene_and_Some: "kleene_and (Some a) (Some b) = Some (a \<and> b)"
  by (cases a; cases b) simp_all

lemma essential_step_Some:
  "essential_step r c (Some b) = Some (b \<and> present_nonempty (get_col c r))"
  by (cases "get_col c r")
     (auto simp: essential_step_def present_nonempty_def isna_def str_ne_def kleene_and_Some)

lemma row_mask_valid_eq: "row_mask_valid r = Some (valid_row r)"
  unfolding row_mask_valid_def essential_def
  by (auto simp add: essential_step_Some get_col_def valid_row_def row_invalid_date_def
      row_invalid_price_def row_invalid_region_def row_invalid_condition_def isna_def isin_def
      split: option.splits)

lemma validate_mask: "fst (validate df) = map (\<lambda>r. Some (valid_row r)) df"
  by (simp add: validate_def row_mask_valid_eq)

lemma select_rows_map: "select_rows (map (\<lambda>r. Some (P r)) df) df = filter P df"
  by (induction df) (auto simp: select_rows_def)

lemma select_rows_map_not:
  "select_rows (map kleene_not (map (\<lambda>r. Some (P r)) df)) df = filter (\<lambda>r. \<not> P r) df"
  by (induction df) (auto simp: select_rows_def kleene_not_def)

lemma count_true_snoc: "count_true (bs @ [b]) = count_true bs + (if b then 1 else 0)"
  by (simp add: count_true_def)

subsection \<open>Schema Normalizer\<close>

lemma to_lower_props:
  "is_space (to_lower c) = is_space c" "is_cased (to_lower c) = is_cased c"
  "\<not> is_upper (to_lower c)" "is_cased c \<Longrightarrow> is_lower (to_lower c)"
  by (auto simp: to_lower_def is_space_def is_cased_def is_upper_def is_lower_def)

lemma to_upper_props:
  "is_space (to_upper c) = is_space c" "is_cased (to_upper c) = is_cased c"
  "is_cased c \<Longrightarrow> is_upper (to_upper c)"
  by (auto simp: to_upper_def is_space_def is_cased_def is_upper_def is_lower_def)

lemma length_title_from: "length (title_from b s) = length s"
  by (induction s arbitrary: b) auto

lemma nth_title_from:
  "i < length s \<Longrightarrow>
   title_from b s ! i =
     (if (if i = 0 then b else is_cased (s ! (i - 1))) then to_lower (s ! i) else to_upper (s ! i))"
proof (induction s arbitrary: b i)
  case Nil then show ?case by simp
next
  case (Cons c cs)
  show ?case
  proof (cases i)
    case 0 then show ?thesis by simp
  next
    case (Suc j)
    with Cons.prems have "j < length cs" by simp
    from Cons.IH [OF this, of "is_cased c"] Suc show ?thesis
      by (cases j) simp_all
  qed
qed

lemma title_cased_title: "title_cased (title s)"
  unfolding title_cased_def title_def
  by (auto simp: length_title_from nth_title_from to_lower_props to_upper_props)

lemma lower_cased_lower: "lower_cased (lower s)"
  by (simp add: lower_cased_def lower_def list_all_iff to_lower_props)

lemma trimmed_strip: "trimmed (strip s)"
proof -
  define t where "t = dropWhile is_space s"
  define n where "n = length (takeWhile is_space (rev t))"
  have u: "strip s = take (length t - n) t"
    by (simp add: strip_def t_def n_def dropWhile_eq_drop [of _ "rev (dropWhile is_space s)"] rev_drop)
  show ?thesis
  proof (cases "strip s = []")
    case True then show ?thesis by (simp add: trimmed_def)
  next
    case False
    with u have pos: "0 < length t - n" and tne: "t \<noteq> []" by auto
    have "hd (strip s) = hd t" using pos u by (simp add: hd_take)
    moreover have "\<not> is_space (hd t)" using tne unfolding t_def by (rule hd_dropWhile)
    moreover have "last (strip s) = hd (dropWhile is_space (rev t))"
      using False by (simp add: strip_def t_def last_rev)
    moreover have "\<not> is_space (hd (dropWhile is_space (rev t)))"
    proof -
      have "dropWhile is_space (rev t) \<noteq> []"
        using False by (simp add: strip_def t_def)
      then show ?thesis by (rule hd_dropWhile)
    qed
    ultimately show ?thesis by (simp add: trimmed_def)
  qed
qed

lemma trimmed_map:
  assumes "\<And>c. is_space (f c) = is_space c"
  shows "trimmed (map f s) = trimmed s"
  by (cases "s = []") (simp_all add: trimmed_def hd_map last_map assms)

lemma trimmed_lower: "trimmed (lower s) = trimmed s"
  unfolding lower_def by (rule trimmed_map) (rule to_lower_props)

lemma trimmed_title: "trimmed (title s) = trimmed s"
proof (cases "s = []")
  case True then show ?thesis by (simp add: title_def)
next
  case False
  have len: "length (title s) = length s"
    by (simp add: title_def length_title_from)
  have ne: "title s \<noteq> []"
    using False len by (cases "title s") auto
  have h: "is_space (hd (title s)) = is_space (hd s)"
    using False by (cases s) (simp_all add: title_def to_upper_props)
  have lt: "length s - 1 < length s" using False by simp
  have a: "last (title s) = title s ! (length s - 1)"
    using ne len by (simp add: last_conv_nth)
  have b: "last s = s ! (length s - 1)"
    using False by (simp add: last_conv_nth)
  have "is_space (title s ! (length s - 1)) = is_space (s ! (length s - 1))"
    unfolding title_def nth_title_from [OF lt]
    by (simp add: to_lower_props to_upper_props)
  then have l: "is_space (last (title s)) = is_space (last s)"
    by (simp only: a b)
  show ?thesis using False ne h l by (simp add: trimmed_def)
qed

lemma normalised_coerce_row: "normalised (coerce_row to_datetime to_numeric cols row)"
  by (simp add: normalised_def coerce_row_def cell_holds_def title_cased_title lower_cased_lower
      trimmed_strip trimmed_title trimmed_lower split: option.splits)

lemma raw_coerce_row:
  "date (coerce_row to_datetime to_numeric cols row) = get_cell cols row ''date''"
  "price_gbp (coerce_row to_datetime to_numeric cols row) = get_cell cols row ''price_gbp''"
  by (simp_all add: coerce_row_def)

lemma coerce_untrimmed:
  "coerce_types sample_to_datetime sample_to_numeric (standardise_columns frame_untrimmed)
     = Inr [row_untrimmed]"
  by code_simp

text \<open>
  C5, as amended. After \<open>coerce_types\<close>, \<open>region\<close> and \<open>category\<close> are title-cased,
  \<open>condition\<close> is lower-cased, and \<open>seller_id\<close>, \<open>region\<close>, \<open>category\<close>, \<open>item_id\<close> and
  \<open>condition\<close> are trimmed; the raw \<open>date\<close> and \<open>price_gbp\<close> are the cells of the input,
  unchanged.
\<close>

theorem coerce_types_normalises:
  "coerce_types to_datetime to_numeric df = Inr rows \<Longrightarrow>
     list_all normalised rows \<and>
     map date rows = map (\<lambda>row. get_cell (columns df) row ''date'') (data df) \<and>
     map price_gbp rows = map (\<lambda>row. get_cell (columns df) row ''price_gbp'') (data df)"
  by (auto simp: coerce_types_def list_all_iff normalised_coerce_row raw_coerce_row
      split: if_splits)

theorem coerce_types_normalises_witness:
  "coerce_types sample_to_datetime sample_to_numeric (standardise_columns frame_untrimmed)
     = Inr [row_untrimmed] \<and>
   list_all normalised [row_untrimmed] \<and>
   map date [row_untrimmed] = [Some '' 2024-01-05''] \<and>
   map price_gbp [row_untrimmed] = [Some ''19.99 '']"
  using coerce_types_normalises [OF coerce_untrimmed] coerce_untrimmed
  by (simp add: row_untrimmed_def)

text \<open>
  C5, as stated, fails: a raw date with a leading blank is still untrimmed after the
  Schema Normalizer has run.
\<close>

theorem raw_date_not_trimmed_counterexample:
  "coerce_types sample_to_datetime sample_to_numeric (standardise_columns frame_untrimmed)
     = Inr [row_untrimmed] \<and>
   \<not> normalised_with_raw row_untrimmed"
  by (simp add: coerce_untrimmed normalised_with_raw_def row_untrimmed_def cell_holds_def
      trimmed_def is_space_def)

subsection \<open>Validator: the rules of validity\<close>

lemma strip_trimmed: "trimmed s \<Longrightarrow> strip s = s"
proof (cases "s = []")
  case True then show ?thesis by (simp add: strip_def)
next
  case False
  assume "trimmed s"
  with False have h: "\<not> is_space (hd s)" and l: "\<not> is_space (last s)"
    by (simp_all add: trimmed_def)
  from False h have a: "dropWhile is_space s = s" by (cases s) simp_all
  from False l have b: "dropWhile is_space (rev s) = rev s"
    by (cases "rev s") (simp_all add: last_rev [symmetric] hd_rev)
  show ?thesis by (simp add: strip_def a b)
qed

lemma present_nonempty_strip: "present_nonempty (map_option strip x) = present_nonempty x"
  by (cases x) (simp_all add: present_nonempty_def strip_trimmed trimmed_strip)

lemma title_Nil_iff: "title s = [] \<longleftrightarrow> s = []"
  by (cases s) (simp_all add: title_def)

lemma present_nonempty_title_strip:
  "present_nonempty (map_option title (map_option strip x)) = present_nonempty x"
  by (cases x)
    (simp_all add: present_nonempty_def strip_trimmed trimmed_strip trimmed_title title_Nil_iff)

lemma valid_row_coerce_row:
  "valid_row (coerce_row to_datetime to_numeric cols row) \<longleftrightarrow>
     to_datetime (get_cell cols row ''date'') \<noteq> None \<and>
     (case to_numeric (get_cell cols row ''price_gbp'') of None \<Rightarrow> False | Some p \<Rightarrow> 0 < p) \<and>
     (case get_cell cols row ''region'' of None \<Rightarrow> False
      | Some s \<Rightarrow> title (strip s) \<in> VALID_REGIONS) \<and>
     (case get_cell cols row ''condition'' of None \<Rightarrow> False
      | Some s \<Rightarrow> lower (strip s) \<in> VALID_CONDITION) \<and>
     present_nonempty (get_cell cols row ''date'') \<and>
     present_nonempty (get_cell cols row ''seller_id'') \<and>
     present_nonempty (get_cell cols row ''category'') \<and>
     present_nonempty (get_cell cols row ''item_id'') \<and>
     present_nonempty (get_cell cols row ''price_gbp'')"
  unfolding valid_row_def
  by (simp add: coerce_row_def present_nonempty_strip present_nonempty_title_strip
      split: option.splits)

text \<open>
  C1. The mask of the Validator is, row by row, the validity of the specification, and it
  is never missing; the valid and the invalid frame are the rows that are valid and the
  rows that are not, each row in exactly one of them. A further row \<open>r\<close> adds one to
  every tally whose rule it breaks, whatever else it breaks. On a row that the Schema
  Normalizer made, validity is the conjunction of the rules on the cells as they were
  read: the date and the price parse, the price is greater than zero, the region and the
  condition are in their vocabularies once normalised, and the five essential cells are
  present and not empty once trimmed.
\<close>

theorem validate_valid_iff_all_rules:
  "fst (validate df) = map (\<lambda>r. Some (valid_row r)) df \<and>
   select_rows (fst (validate df)) df = filter valid_row df \<and>
   select_rows (map kleene_not (fst (validate df))) df = filter (\<lambda>r. \<not> valid_row r) df \<and>
   invalid_date (snd (validate (df @ [r]))) =
     invalid_date (snd (validate df)) + (if date_parsed r = None then 1 else 0) \<and>
   invalid_price (snd (validate (df @ [r]))) =
     invalid_price (snd (validate df)) +
       (if (case price_gbp_num r of None \<Rightarrow> True | Some p \<Rightarrow> p \<le> 0) then 1 else 0) \<and>
   invalid_region (snd (validate (df @ [r]))) =
     invalid_region (snd (validate df)) +
       (if (case region r of None \<Rightarrow> True | Some s \<Rightarrow> s \<notin> VALID_REGIONS) then 1 else 0) \<and>
   invalid_condition (snd (validate (df @ [r]))) =
     invalid_condition (snd (validate df)) +
       (if (case condition r of None \<Rightarrow> True | Some s \<Rightarrow> s \<notin> VALID_CONDITION) then 1 else 0) \<and>
   missing_nulls (snd (validate (df @ [r]))) =
     map (\<lambda>(c, n). (c, n + (if get_col c r = None then 1 else 0)))
       (missing_nulls (snd (validate df))) \<and>
   missing_empty (snd (validate (df @ [r]))) =
     map (\<lambda>(c, n). (c, n + (if (case get_col c r of None \<Rightarrow> False | Some s \<Rightarrow> strip s = [])
                              then 1 else 0)))
       (missing_empty (snd (validate df))) \<and>
   (valid_row (coerce_row to_datetime to_numeric cols row) \<longleftrightarrow>
      to_datetime (get_cell cols row ''date'') \<noteq> None \<and>
      (case to_numeric (get_cell cols row ''price_gbp'') of None \<Rightarrow> False | Some p \<Rightarrow> 0 < p) \<and>
      (case get_cell cols row ''region'' of None \<Rightarrow> False
       | Some s \<Rightarrow> title (strip s) \<in> VALID_REGIONS) \<and>
      (case get_cell cols row ''condition'' of None \<Rightarrow> False
       | Some s \<Rightarrow> lower (strip s) \<in> VALID_CONDITION) \<and>
      present_nonempty (get_cell cols row ''date'') \<and>
      present_nonempty (get_cell cols row ''seller_id'') \<and>
      present_nonempty (get_cell cols row ''category'') \<and>
      present_nonempty (get_cell cols row ''item_id'') \<and>
      present_nonempty (get_cell cols row ''price_gbp''))"
proof -
  have empty_text: "(strip (astype_str x) = []) = (case x of None \<Rightarrow> False | Some s \<Rightarrow> strip s = [])"
    for x
    by (cases x) (simp_all add: astype_str_def strip_def is_space_def)
  have tallies:
    "invalid_date (snd (validate (df @ [r]))) =
       invalid_date (snd (validate df)) + (if date_parsed r = None then 1 else 0)"
    "invalid_price (snd (validate (df @ [r]))) =
       invalid_price (snd (validate df)) +
         (if (case price_gbp_num r of None \<Rightarrow> True | Some p \<Rightarrow> p \<le> 0) then 1 else 0)"
    "invalid_region (snd (validate (df @ [r]))) =
       invalid_region (snd (validate df)) +
         (if (case region r of None \<Rightarrow> True | Some s \<Rightarrow> s \<notin> VALID_REGIONS) then 1 else 0)"
    "invalid_condition (snd (validate (df @ [r]))) =
       invalid_condition (snd (validate df)) +
         (if (case condition r of None \<Rightarrow> True | Some s \<Rightarrow> s \<notin> VALID_CONDITION) then 1 else 0)"
    "missing_nulls (snd (validate (df @ [r]))) =
       map (\<lambda>(c, n). (c, n + (if get_col c r = None then 1 else 0)))
         (missing_nulls (snd (validate df)))"
    "missing_empty (snd (validate (df @ [r]))) =
       map (\<lambda>(c, n). (c, n + (if (case get_col c r of None \<Rightarrow> False | Some s \<Rightarrow> strip s = [])
                                then 1 else 0)))
         (missing_empty (snd (validate df)))"
    by (simp_all add: validate_def count_true_snoc empty_text row_invalid_date_def
        row_invalid_price_def row_invalid_region_def row_invalid_condition_def isna_def
        isin_def split: option.splits)
  show ?thesis
    unfolding validate_mask select_rows_map select_rows_map_not
    using tallies valid_row_coerce_row [of to_datetime to_numeric cols row]
    by blast
qed

theorem validate_valid_iff_all_rules_witness:
  "fst (validate [row_tools]) = [Some True] \<and>
   select_rows (map kleene_not (fst (validate [row_tools, row_broken]))) [row_tools, row_broken]
     = [row_broken] \<and>
   invalid_date (snd (validate ([row_tools] @ [row_broken]))) = 1 \<and>
   invalid_price (snd (validate ([row_tools] @ [row_broken]))) = 1 \<and>
   invalid_region (snd (validate ([row_tools] @ [row_broken]))) = 1 \<and>
   invalid_condition (snd (validate ([row_tools] @ [row_broken]))) = 0"
proof -
  have good: "valid_row row_tools"
    by (simp add: valid_row_def row_tools_def present_nonempty_def strip_def is_space_def
        VALID_REGIONS_def VALID_CONDITION_def)
  have bad: "\<not> valid_row row_broken"
    by (simp add: valid_row_def row_broken_def)
  have base: "snd (validate [row_tools]) =
      \<lparr> missing_nulls = map (\<lambda>c. (c, 0)) REQUIRED_COLS,
        missing_empty = map (\<lambda>c. (c, 0)) REQUIRED_COLS,
        invalid_date = 0, invalid_price = 0, invalid_region = 0, invalid_condition = 0 \<rparr>"
    by (simp add: validate_def count_true_def row_invalid_date_def row_invalid_price_def
        row_invalid_region_def row_invalid_condition_def isna_def isin_def row_tools_def
        get_col_def REQUIRED_COLS_def astype_str_def strip_def is_space_def
        VALID_REGIONS_def VALID_CONDITION_def)
  have fields: "date_parsed row_broken = None" "price_gbp_num row_broken = Some (- 5)"
    "region row_broken = Some ''Mars''" "condition row_broken = Some ''used''"
    by (simp_all add: row_broken_def)
  show ?thesis
    using validate_valid_iff_all_rules [of "[row_tools]" row_broken]
      validate_valid_iff_all_rules [of "[row_tools, row_broken]" row_broken]
    by (simp add: good bad base fields VALID_REGIONS_def VALID_CONDITION_def
        select_rows_def kleene_not_def)
qed

subsection \<open>Deduplicator\<close>

lemma drop_seen_subset: "set (drop_seen key seen xs) \<subseteq> set xs"
  by (induction xs arbitrary: seen) auto

lemma drop_seen_not_seen: "r \<in> set (drop_seen key seen xs) \<Longrightarrow> key r \<notin> set seen"
proof (induction xs arbitrary: seen)
  case Nil then show ?case by simp
next
  case (Cons x xs)
  show ?case
  proof (cases "key x \<in> set seen")
    case True
    with Cons show ?thesis by simp
  next
    case False
    with Cons.prems consider "r = x" | "r \<in> set (drop_seen key (key x # seen) xs)" by auto
    then show ?thesis
    proof cases
      case 1 with False show ?thesis by simp
    next
      case 2 from Cons.IH [OF 2] show ?thesis by simp
    qed
  qed
qed

lemma drop_seen_keys: "key ` set (drop_seen key seen xs) = key ` set xs - set seen"
  by (induction xs arbitrary: seen) auto

lemma drop_seen_distinct: "distinct (map key (drop_seen key seen xs))"
  by (induction xs arbitrary: seen) (auto dest: drop_seen_not_seen)

lemma drop_seen_sorted:
  "sorted (map f xs) \<Longrightarrow> sorted (map f (drop_seen key seen xs))"
proof (induction xs arbitrary: seen)
  case Nil then show ?case by simp
next
  case (Cons x xs)
  then show ?case using drop_seen_subset [of key _ xs] by (auto)
qed

lemma drop_seen_first:
  "r \<in> set (drop_seen key seen xs) \<Longrightarrow>
     \<exists>pre post. xs = pre @ r # post \<and> (\<forall>y \<in> set pre. key y \<noteq> key r)"
proof (induction xs arbitrary: seen)
  case Nil then show ?case by simp
next
  case (Cons x xs)
  show ?case
  proof (cases "key x \<in> set seen")
    case True
    with Cons.prems have in_rest: "r \<in> set (drop_seen key seen xs)" by simp
    from drop_seen_not_seen [OF in_rest] True have ne: "key x \<noteq> key r" by auto
    from Cons.IH [OF in_rest] obtain pre post
      where "xs = pre @ r # post" "\<forall>y \<in> set pre. key y \<noteq> key r" by blast
    with ne have "x # xs = (x # pre) @ r # post \<and> (\<forall>y \<in> set (x # pre). key y \<noteq> key r)"
      by simp
    then show ?thesis by blast
  next
    case False
    with Cons.prems consider "r = x" | "r \<in> set (drop_seen key (key x # seen) xs)" by auto
    then show ?thesis
    proof cases
      case 1
      then have "x # xs = [] @ r # xs \<and> (\<forall>y \<in> set []. key y \<noteq> key r)" by simp
      then show ?thesis by blast
    next
      case 2
      from drop_seen_not_seen [OF 2] have ne: "key x \<noteq> key r" by auto
      from Cons.IH [OF 2] obtain pre post
        where "xs = pre @ r # post" "\<forall>y \<in> set pre. key y \<noteq> key r" by blast
      with ne have "x # xs = (x # pre) @ r # post \<and> (\<forall>y \<in> set (x # pre). key y \<noteq> key r)"
        by simp
      then show ?thesis by blast
    qed
  qed
qed

lemma find_filter_hd:
  "List.find P xs = (case filter P xs of [] \<Rightarrow> None | x # _ \<Rightarrow> Some x)"
  by (induction xs) auto

lemma sort_cols_eq_iff:
  "sort_cols a = sort_cols b \<longleftrightarrow> natural_key a = natural_key b \<and> price_gbp_num a = price_gbp_num b"
  by (auto simp: sort_cols_def natural_key_def na_last_def)

lemma dedupe_least:
  assumes r: "r \<in> set (drop_duplicates (sort_values df))"
    and r': "r' \<in> set df" and k: "natural_key r' = natural_key r"
  shows "sort_cols r \<le> sort_cols r'"
proof -
  let ?s = "sort_values df"
  from drop_seen_first [OF r [unfolded drop_duplicates_def]] obtain pre post
    where s: "?s = pre @ r # post" and pre: "\<forall>y \<in> set pre. natural_key y \<noteq> natural_key r"
    by blast
  have "sorted (map sort_cols ?s)" by (simp add: sort_values_def)
  then have le: "\<forall>y \<in> set post. sort_cols r \<le> sort_cols y"
    unfolding s by (auto simp: sorted_append)
  have "r' \<in> set ?s" using r' by (simp add: sort_values_def)
  then have "r' = r \<or> r' \<in> set post" using pre k unfolding s by auto
  then show ?thesis using le by auto
qed

lemma dedupe_earliest:
  assumes r: "r \<in> set (drop_duplicates (sort_values df))"
  shows "List.find (\<lambda>y. sort_cols y = sort_cols r) df = Some r"
proof -
  let ?s = "sort_values df"
  let ?P = "\<lambda>y. sort_cols y = sort_cols r"
  from drop_seen_first [OF r [unfolded drop_duplicates_def]] obtain pre post
    where s: "?s = pre @ r # post" and pre: "\<forall>y \<in> set pre. natural_key y \<noteq> natural_key r"
    by blast
  have "filter ?P pre = []" using pre by (auto simp: filter_empty_conv sort_cols_eq_iff)
  then have "filter ?P ?s = r # filter ?P post" unfolding s by simp
  moreover have "filter ?P ?s = filter ?P df"
    unfolding sort_values_def by (rule sort_key_stable)
  ultimately have f: "filter ?P df = r # filter ?P post" by simp
  show ?thesis by (simp add: find_filter_hd f)
qed

lemma valid_row_fields:
  assumes "valid_row r"
  obtains d s i p where "date_parsed r = Some d" "seller_id r = Some s"
      "item_id r = Some i" "price_gbp_num r = Some p" "0 < p"
proof -
  from assms have "date_parsed r \<noteq> None" "seller_id r \<noteq> None" "item_id r \<noteq> None"
    "price_gbp_num r \<noteq> None" "0 < the (price_gbp_num r)"
    by (auto simp: valid_row_def present_nonempty_def split: option.splits)
  with that show ?thesis by (metis option.collapse)
qed

lemma sort_cols_le_plain:
  assumes "valid_row a" "valid_row b"
  shows "sort_cols a \<le> sort_cols b \<longleftrightarrow> plain_key a \<le> plain_key b"
proof -
  from assms(1) obtain d s i p where a: "date_parsed a = Some d" "seller_id a = Some s"
      "item_id a = Some i" "price_gbp_num a = Some p" by (rule valid_row_fields)
  from assms(2) obtain d' s' i' p' where b: "date_parsed b = Some d'" "seller_id b = Some s'"
      "item_id b = Some i'" "price_gbp_num b = Some p'" by (rule valid_row_fields)
  show ?thesis
    by (simp add: sort_cols_def plain_key_def na_last_def a b)
qed

lemma plain_key_eq_iff:
  assumes "valid_row a" "valid_row b"
  shows "plain_key a = plain_key b \<longleftrightarrow> sort_cols a = sort_cols b"
proof -
  from assms(1) obtain d s i p where a: "date_parsed a = Some d" "seller_id a = Some s"
      "item_id a = Some i" "price_gbp_num a = Some p" by (rule valid_row_fields)
  from assms(2) obtain d' s' i' p' where b: "date_parsed b = Some d'" "seller_id b = Some s'"
      "item_id b = Some i'" "price_gbp_num b = Some p'" by (rule valid_row_fields)
  show ?thesis
    by (simp add: sort_cols_def plain_key_def na_last_def a b)
qed

lemma sorted_map_cong_le:
  assumes "\<And>x y. x \<in> set xs \<Longrightarrow> y \<in> set xs \<Longrightarrow> f x \<le> f y \<longleftrightarrow> g x \<le> g y"
  shows "sorted (map f xs) \<longleftrightarrow> sorted (map g xs)"
  using assms by (induction xs) auto

lemma drop_seen_subseq: "subseq (drop_seen key seen xs) xs"
  by (induction xs arbitrary: seen) auto

text \<open>
  C2. On a table of valid rows the Deduplicator sorts stably by (\<open>date_parsed\<close>,
  \<open>seller_id\<close>, \<open>item_id\<close>, \<open>price_gbp_num\<close>): the sorted table is ordered, has the
  rows of the input, and keeps rows with equal sort columns in their input order. The
  output is a subsequence of the sorted table, so it is ordered too; it has one row for
  each natural key of the input; the row kept has the least price of its group and is
  the earliest input row with that key and price; the count returned is the number of
  rows dropped.
\<close>

theorem dedupe_keeps_cheapest_first:
  assumes valid: "list_all valid_row df" and run: "dedupe df = (out, removed)"
  shows
    "sorted (map plain_key (sort_values df)) \<and>
     mset (sort_values df) = mset df \<and>
     (\<forall>r \<in> set df. filter (\<lambda>y. plain_key y = plain_key r) (sort_values df)
                   = filter (\<lambda>y. plain_key y = plain_key r) df) \<and>
     subseq out (sort_values df) \<and>
     sorted (map plain_key out) \<and>
     distinct (map natural_key out) \<and>
     natural_key ` set out = natural_key ` set df \<and>
     (\<forall>r \<in> set out. \<forall>r' \<in> set df. natural_key r' = natural_key r \<longrightarrow>
        the (price_gbp_num r) \<le> the (price_gbp_num r')) \<and>
     (\<forall>r \<in> set out.
        List.find (\<lambda>y. natural_key y = natural_key r \<and> price_gbp_num y = price_gbp_num r) df
          = Some r) \<and>
     removed = int (length df) - int (length out)"
proof -
  let ?s = "sort_values df"
  from run have out: "out = drop_duplicates ?s"
    and removed: "removed = int (length df) - int (length out)"
    by (auto simp add: dedupe_def Let_def)
  have v_df: "\<And>r. r \<in> set df \<Longrightarrow> valid_row r"
    using valid by (simp add: list_all_iff)
  have set_s: "set ?s = set df" by (simp add: sort_values_def)
  have sub: "set out \<subseteq> set df"
    unfolding out drop_duplicates_def using drop_seen_subset [of natural_key "[]" ?s] set_s by simp
  have v_s: "\<And>r. r \<in> set ?s \<Longrightarrow> valid_row r" using v_df set_s by simp
  have v_out: "\<And>r. r \<in> set out \<Longrightarrow> valid_row r" using v_df sub by auto
  have sorted_s: "sorted (map sort_cols ?s)" by (simp add: sort_values_def)
  have 1: "sorted (map plain_key ?s)"
    using sorted_s sorted_map_cong_le [of ?s sort_cols plain_key]
    by (simp add: sort_cols_le_plain v_s)
  have 2: "mset ?s = mset df" by (simp add: sort_values_def)
  have 3: "filter (\<lambda>y. plain_key y = plain_key r) ?s = filter (\<lambda>y. plain_key y = plain_key r) df"
    if "r \<in> set df" for r
  proof -
    have "filter (\<lambda>y. plain_key y = plain_key r) ?s = filter (\<lambda>y. sort_cols y = sort_cols r) ?s"
      by (rule filter_cong) (simp_all add: plain_key_eq_iff v_s v_df that)
    also have "\<dots> = filter (\<lambda>y. sort_cols y = sort_cols r) df"
      unfolding sort_values_def by (rule sort_key_stable)
    also have "\<dots> = filter (\<lambda>y. plain_key y = plain_key r) df"
      by (rule filter_cong) (simp_all add: plain_key_eq_iff v_df that)
    finally show ?thesis .
  qed
  have 4: "subseq out ?s" unfolding out drop_duplicates_def by (rule drop_seen_subseq)
  have "sorted (map sort_cols out)"
    unfolding out drop_duplicates_def using sorted_s by (rule drop_seen_sorted)
  then have 5: "sorted (map plain_key out)"
    using sorted_map_cong_le [of out sort_cols plain_key] by (simp add: sort_cols_le_plain v_out)
  have 6: "distinct (map natural_key out)"
    unfolding out drop_duplicates_def by (rule drop_seen_distinct)
  have 7: "natural_key ` set out = natural_key ` set df"
    unfolding out drop_duplicates_def by (simp add: drop_seen_keys set_s)
  have 8: "the (price_gbp_num r) \<le> the (price_gbp_num r')"
    if "r \<in> set out" "r' \<in> set df" "natural_key r' = natural_key r" for r r'
  proof -
    have "sort_cols r \<le> sort_cols r'"
      using that dedupe_least [of r df r'] unfolding out by simp
    then have "plain_key r \<le> plain_key r'"
      using that by (simp add: sort_cols_le_plain v_out v_df)
    with that(3) show ?thesis
      by (auto simp: plain_key_def natural_key_def)
  qed
  have 9: "List.find (\<lambda>y. natural_key y = natural_key r \<and> price_gbp_num y = price_gbp_num r) df
          = Some r" if "r \<in> set out" for r
    using dedupe_earliest [of r df] that unfolding out by (simp add: sort_cols_eq_iff)
  from 1 2 3 4 5 6 7 8 9 removed show ?thesis by blast
qed

lemma valid_table_dups: "list_all valid_row table_dups" by code_simp
lemma dedupe_table_dups: "dedupe table_dups = (table_dups_out, 2)" by code_simp

theorem dedupe_keeps_cheapest_first_witness:
  "list_all valid_row table_dups \<and> dedupe table_dups = (table_dups_out, 2) \<and>
   sorted (map plain_key table_dups_out) \<and> distinct (map natural_key table_dups_out) \<and>
   natural_key ` set table_dups_out = natural_key ` set table_dups \<and>
   (2 :: int) = int (length table_dups) - int (length table_dups_out)"
  using dedupe_keeps_cheapest_first [OF valid_table_dups dedupe_table_dups] valid_table_dups dedupe_table_dups
  by simp

subsection \<open>Enricher: the merge\<close>

lemma truncate_with_segment: "listing.truncate (with_segment r s) = r"
  by (simp add: with_segment_def listing.truncate_def)

lemma enrich_concat:
  "enrich df lk =
     concat (map (\<lambda>r. if matches lk r = [] then [with_segment r None]
                       else map (\<lambda>l. with_segment r (lk_segment l)) (matches lk r)) df)"
proof -
  let ?lk1 = "map (\<lambda>l. l\<lparr>lk_category := map_option title (lk_category l)\<rparr>) lk"
  have empty: "(filter (\<lambda>l. lk_category l = category r) ?lk1 = []) = (matches lk r = [])" for r
    by (simp add: matches_def filter_empty_conv)
  have rows: "map (\<lambda>l. with_segment r (lk_segment l)) (filter (\<lambda>l. lk_category l = category r) ?lk1)
      = map (\<lambda>l. with_segment r (lk_segment l)) (matches lk r)" for r
    by (simp add: matches_def filter_map o_def)
  show ?thesis
    by (simp only: enrich_def merge_left_def Let_def empty rows)
qed

lemma enrich_length:
  "length (enrich df lk) = sum_list (map (\<lambda>r. max 1 (length (matches lk r))) df)"
  unfolding enrich_concat
  by (induction df) (auto simp: max_def Suc_le_eq)

lemma enrich_length_ge: "length df \<le> length (enrich df lk)"
  unfolding enrich_length by (induction df) auto


lemma matches_distinct:
  "distinct (map (\<lambda>l. map_option title (lk_category l)) lk) \<Longrightarrow> length (matches lk r) \<le> 1"
  unfolding matches_def
proof (induction lk)
  case Nil then show ?case by simp
next
  case (Cons l lk)
  then show ?case
    by (auto simp: filter_empty_conv image_iff)
qed

lemma enrich_single:
  "(\<And>r. r \<in> set df \<Longrightarrow> length (matches lk r) \<le> 1) \<Longrightarrow>
     map listing.truncate (enrich df lk) = df"
  unfolding enrich_concat
proof (induction df)
  case Nil then show ?case by simp
next
  case (Cons a df)
  from Cons.prems [of a] have "matches lk a = [] \<or> (\<exists>l. matches lk a = [l])"
    by (cases "matches lk a") (auto simp: Suc_le_eq)
  then show ?case using Cons by (auto simp: truncate_with_segment)
qed

lemma enrich_set:
  "e \<in> set (enrich df lk) \<Longrightarrow> \<exists>r \<in> set df. \<exists>s. e = with_segment r s"
  unfolding enrich_concat by (auto split: if_splits)



subsection \<open>The run\<close>

lemma quality_stats_frame_of: "quality_stats (frame_of df_out) = Inr (stats_of df_out)"
  by (simp add: quality_stats_def frame_of_def stats_of_def Let_def)

lemma main_unfold:
  "main to_datetime to_numeric df_raw0 lk =
     (if missing_cols_of df_raw0 \<noteq> [] then Inl (SystemExit (missing_cols_of df_raw0))
      else case coerce_types to_datetime to_numeric (standardise_columns df_raw0) of
        Inl e \<Rightarrow> Inl e
      | Inr df_typed \<Rightarrow>
          if ''segment'' \<in> set (columns (standardise_columns df_raw0))
          then Inl (KeyError ''segment'')
          else Inr (map out_of (enrich (fst (dedupe (filter valid_row df_typed))) lk),
                    \<lparr> input_rows = int (length (data df_raw0)),
                      validation_issues = snd (validate df_typed),
                      rows_removed_invalid = int (length (filter (\<lambda>r. \<not> valid_row r) df_typed)),
                      rows_removed_duplicates = snd (dedupe (filter valid_row df_typed)),
                      output_stats =
                        stats_of (map out_of (enrich (fst (dedupe (filter valid_row df_typed))) lk)) \<rparr>,
                    filter (\<lambda>r. \<not> valid_row r) df_typed))"
proof -
  have sel: "select_rows (fst (validate df)) df = filter valid_row df"
    "select_rows (map kleene_not (fst (validate df))) df = filter (\<lambda>r. \<not> valid_row r) df"
    for df :: "listing list"
    unfolding validate_mask by (rule select_rows_map, rule select_rows_map_not)
  have len: "data (standardise_columns df_raw0) = data df_raw0"
    by (simp add: standardise_columns_def)
  show ?thesis
    unfolding main_def missing_cols_of_def Let_def
    by (simp add: split_def sel len quality_stats_frame_of split: sum.splits)
qed

subsection \<open>The sample run\<close>

lemma demo_missing: "missing_cols_of frame_demo = []" by code_simp

lemma demo_segment: "''segment'' \<notin> set (columns (standardise_columns frame_demo))" by code_simp

lemma demo_typed:
  "coerce_types sample_to_datetime sample_to_numeric (standardise_columns frame_demo)
     = Inr demo_rows" by code_simp

lemma demo_invalid: "filter (\<lambda>r. \<not> valid_row r) demo_rows = [demo3, demo4]"
  by code_simp

lemma demo_dedupe: "dedupe (filter valid_row demo_rows) = (demo_kept, 1)" by code_simp

lemma demo_validate: "snd (validate demo_rows) = demo_issues" by code_simp

lemma demo_enrich_plain: "enrich demo_kept lookup_plain
   = [with_segment demo2 (Some ''Hardware''), with_segment demo5 None]" by code_simp

lemma demo_enrich_dups: "enrich demo_kept lookup_dups
   = [with_segment demo2 (Some ''Hardware''), with_segment demo2 (Some ''DIY''), with_segment demo5 None]" by code_simp

lemma main_demo_plain:
  "main sample_to_datetime sample_to_numeric frame_demo lookup_plain
     = Inr (demo_out, demo_report demo_out, [demo3, demo4])"
  by (simp add: main_unfold demo_missing demo_segment demo_typed demo_invalid
      demo_dedupe demo_validate demo_enrich_plain demo_out_def demo_report_def)
    (simp add: frame_demo_def)

lemma main_demo_dups:
  "main sample_to_datetime sample_to_numeric frame_demo lookup_dups
     = Inr (demo_out_dups, demo_report demo_out_dups, [demo3, demo4])"
  by (simp add: main_unfold demo_missing demo_segment demo_typed demo_invalid
      demo_dedupe demo_validate demo_enrich_dups demo_out_dups_def demo_report_def)
    (simp add: frame_demo_def)

subsection \<open>Clean output and report totals\<close>

lemma coerce_types_Inr:
  "coerce_types dt num (standardise_columns raw) = Inr typed \<Longrightarrow> typed = typed_rows dt num raw"
  by (auto simp: coerce_types_def typed_rows_def standardise_columns_def split: if_splits)

lemma valid_row_count_eq:
  "valid_row_count dt num raw = int (length (filter valid_row (typed_rows dt num raw)))"
  by (simp add: valid_row_count_def validate_mask filter_map o_def)

lemma main_Inr:
  assumes "main dt num raw lk = Inr (df_out, dq, df_invalid)"
  shows "df_out = map out_of (enrich (fst (dedupe (filter valid_row (typed_rows dt num raw)))) lk)"
    and "input_rows dq = int (length (data raw))"
    and "validation_issues dq = snd (validate (typed_rows dt num raw))"
    and "rows_removed_invalid dq = int (length (filter (\<lambda>r. \<not> valid_row r) (typed_rows dt num raw)))"
    and "rows_removed_duplicates dq = snd (dedupe (filter valid_row (typed_rows dt num raw)))"
    and "output_stats dq = stats_of df_out"
    and "df_invalid = filter (\<lambda>r. \<not> valid_row r) (typed_rows dt num raw)"
  using assms
  by (auto simp: main_unfold dest!: coerce_types_Inr split: if_splits sum.splits)

lemma dedupe_fst_snd:
  "set (fst (dedupe df)) \<subseteq> set df"
  "snd (dedupe df) = int (length df) - int (length (fst (dedupe df)))"
  using drop_seen_subset [of natural_key "[]" "sort_values df"]
  by (simp_all add: dedupe_def Let_def drop_duplicates_def sort_values_def)

lemma valid_out_of: "valid_row r \<Longrightarrow> valid_out (out_of (with_segment r s))"
  by (simp add: valid_out_def valid_row_def out_of_def with_segment_def)

text \<open>
  C9. Every row of the clean output of a run that completes has a date, a price greater
  than zero, a region and a condition of the controlled vocabularies, and a seller, a
  category and an item that are present and not empty.
\<close>

theorem clean_output_rows_valid:
  "main to_datetime to_numeric df_raw0 lk = Inr (df_out, dq, df_invalid) \<Longrightarrow>
     list_all valid_out df_out"
proof -
  assume run: "main to_datetime to_numeric df_raw0 lk = Inr (df_out, dq, df_invalid)"
  let ?valid = "filter valid_row (typed_rows to_datetime to_numeric df_raw0)"
  have out: "df_out = map out_of (enrich (fst (dedupe ?valid)) lk)"
    by (rule main_Inr(1) [OF run])
  have "valid_out (out_of e)" if "e \<in> set (enrich (fst (dedupe ?valid)) lk)" for e
  proof -
    from enrich_set [OF that] obtain r s
      where r: "r \<in> set (fst (dedupe ?valid))" and e: "e = with_segment r s" by blast
    from r dedupe_fst_snd(1) [of ?valid] have "valid_row r" by auto
    then show ?thesis unfolding e by (rule valid_out_of)
  qed
  then show ?thesis by (simp add: out list_all_iff)
qed

theorem clean_output_rows_valid_witness:
  "main sample_to_datetime sample_to_numeric frame_demo lookup_plain
     = Inr (demo_out, demo_report demo_out, [demo3, demo4]) \<and>
   list_all valid_out demo_out"
  using clean_output_rows_valid [OF main_demo_plain] main_demo_plain by simp

text \<open>
  C4, as amended. In the report of a run that completes, the invalid rows and the valid
  rows add up to the input rows; the valid rows less the duplicates removed are at most
  the rows of the output, and are exactly those when no two rows of the lookup have the
  same title-cased category.
\<close>

theorem report_totals_reconcile:
  "main to_datetime to_numeric df_raw0 lk = Inr (df_out, dq, df_invalid) \<Longrightarrow>
     rows_removed_invalid dq + valid_row_count to_datetime to_numeric df_raw0 = input_rows dq \<and>
     valid_row_count to_datetime to_numeric df_raw0 - rows_removed_duplicates dq
       \<le> row_count (output_stats dq) \<and>
     (distinct (map (\<lambda>l. map_option title (lk_category l)) lk) \<longrightarrow>
        valid_row_count to_datetime to_numeric df_raw0 - rows_removed_duplicates dq
          = row_count (output_stats dq))"
proof -
  assume run: "main to_datetime to_numeric df_raw0 lk = Inr (df_out, dq, df_invalid)"
  let ?typed = "typed_rows to_datetime to_numeric df_raw0"
  let ?kept = "fst (dedupe (filter valid_row ?typed))"
  note m = main_Inr [OF run]
  have len: "length ?typed = length (data df_raw0)" by (simp add: typed_rows_def)
  have part: "length (filter (\<lambda>r. \<not> valid_row r) ?typed) + length (filter valid_row ?typed)
      = length ?typed"
    using sum_length_filter_compl [of valid_row ?typed] by simp
  have a: "rows_removed_invalid dq + valid_row_count to_datetime to_numeric df_raw0 = input_rows dq"
    using part len by (simp add: m(2) m(4) valid_row_count_eq)
  have diff: "valid_row_count to_datetime to_numeric df_raw0 - rows_removed_duplicates dq
      = int (length ?kept)"
    by (simp add: m(5) valid_row_count_eq dedupe_fst_snd(2))
  have rc: "row_count (output_stats dq) = int (length (enrich ?kept lk))"
    by (simp add: m(6) m(1) stats_of_def Let_def)
  have b: "int (length ?kept) \<le> int (length (enrich ?kept lk))"
    using enrich_length_ge [of ?kept lk] by simp
  have c: "length (enrich ?kept lk) = length ?kept"
    if "distinct (map (\<lambda>l. map_option title (lk_category l)) lk)"
    using enrich_single [of ?kept lk] matches_distinct [OF that]
    by (metis length_map)
  show ?thesis using a b c by (simp add: diff rc)
qed

theorem report_totals_reconcile_witness:
  "main sample_to_datetime sample_to_numeric frame_demo lookup_plain
     = Inr (demo_out, demo_report demo_out, [demo3, demo4]) \<and>
   distinct (map (\<lambda>l. map_option title (lk_category l)) lookup_plain) \<and>
   rows_removed_invalid (demo_report demo_out)
     + valid_row_count sample_to_datetime sample_to_numeric frame_demo = 5 \<and>
   valid_row_count sample_to_datetime sample_to_numeric frame_demo
     - rows_removed_duplicates (demo_report demo_out) = 2 \<and>
   row_count (output_stats (demo_report demo_out)) = 2"
proof -
  have d: "distinct (map (\<lambda>l. map_option title (lk_category l)) lookup_plain)"
    by (simp add: lookup_plain_def)
  have rc: "row_count (output_stats (demo_report demo_out)) = 2"
    by (simp add: demo_report_def stats_of_def Let_def demo_out_def)
  show ?thesis
    using report_totals_reconcile [OF main_demo_plain] main_demo_plain d rc
    by (simp add: demo_report_def)
qed

text \<open>
  C4, as stated, fails: with a lookup that has one category twice, three rows are valid,
  one duplicate is removed, and the output has three rows.
\<close>

theorem duplicate_lookup_report_counterexample:
  "main sample_to_datetime sample_to_numeric frame_demo lookup_dups
     = Inr (demo_out_dups, demo_report demo_out_dups, [demo3, demo4]) \<and>
   valid_row_count sample_to_datetime sample_to_numeric frame_demo
     - rows_removed_duplicates (demo_report demo_out_dups)
     \<noteq> row_count (output_stats (demo_report demo_out_dups))"
proof -
  have typed: "typed_rows sample_to_datetime sample_to_numeric frame_demo = demo_rows"
    using coerce_types_Inr [OF demo_typed] by simp
  have "valid_row_count sample_to_datetime sample_to_numeric frame_demo = 3"
    using demo_dedupe dedupe_fst_snd(2) [of "filter valid_row demo_rows"]
    by (simp add: valid_row_count_eq typed demo_kept_def)
  moreover have "row_count (output_stats (demo_report demo_out_dups)) = 3"
    by (simp add: demo_report_def stats_of_def Let_def demo_out_dups_def)
  ultimately show ?thesis
    by (simp add: main_demo_dups demo_report_def)
qed

subsection \<open>Enricher: row counts\<close>






subsection \<open>Schema errors and determinism\<close>












lemma stable_sort_unique:
  assumes "mset ys = mset df" and "sorted (map sort_cols ys)"
    and "\<And>k. k \<in> set ys \<Longrightarrow>
           filter (\<lambda>x. sort_cols k = sort_cols x) ys = filter (\<lambda>x. sort_cols k = sort_cols x) df"
  shows "sort_values df = ys"
  unfolding sort_values_def using assms by (intro properties_for_sort_key) auto



subsection \<open>Quality Reporter\<close>

lemma quantile_interpolate:
  assumes ne: "xs \<noteq> []" and q0: "0 \<le> q" and q1: "q \<le> 1"
  shows "quantile xs q = interpolate (sort xs) (q * real (length xs - 1))"
proof -
  define n where "n = length xs"
  define h where "h = q * real (n - 1)"
  define lo where "lo = nat \<lfloor>h\<rfloor>"
  define g where "g = h - real lo"
  let ?s = "sort xs"
  have h0: "0 \<le> h" using q0 by (simp add: h_def)
  have h1: "h \<le> real (n - 1)"
    using mult_right_mono [OF q1, of "real (n - 1)"] by (simp add: h_def)
  have lo_le: "real lo \<le> h" using h0 by (simp add: lo_def)
  have q: "quantile xs q = ?s ! lo + (?s ! min (lo + 1) (n - 1) - ?s ! lo) * g"
    by (simp add: quantile_def Let_def n_def h_def lo_def g_def)
  have i: "interpolate ?s (q * real (length xs - 1))
      = (if g = 0 then ?s ! lo else (1 - g) * ?s ! lo + g * ?s ! (lo + 1))"
    by (simp add: interpolate_def Let_def n_def h_def lo_def g_def)
  show ?thesis
  proof (cases "g = 0")
    case True
    then show ?thesis unfolding q i by simp
  next
    case False
    have "lo < n - 1"
    proof (rule ccontr)
      assume "\<not> lo < n - 1"
      then have "real (n - 1) \<le> real lo" by simp
      with lo_le h1 have "h = real lo" by simp
      with False show False by (simp add: g_def)
    qed
    then have "min (lo + 1) (n - 1) = lo + 1" by simp
    then show ?thesis unfolding q i using False by (simp add: algebra_simps)
  qed
qed

lemma quantile_median:
  assumes ne: "xs \<noteq> []"
  shows "quantile xs (1 / 2) = median xs"
proof -
  define n where "n = length xs"
  let ?s = "sort xs"
  have npos: "0 < n" using ne by (simp add: n_def)
  show ?thesis
  proof (cases "odd n")
    case True
    then obtain m where m: "n = 2 * m + 1" by (auto elim: oddE)
    have h: "1 / 2 * real (n - 1) = real m" by (simp add: m)
    have "quantile xs (1 / 2) = ?s ! m"
      unfolding quantile_def Let_def length_sort n_def [symmetric] h by simp
    moreover have "median xs = ?s ! m"
      using True by (simp add: median_def Let_def n_def [symmetric]) (simp add: m)
    ultimately show ?thesis by simp
  next
    case False
    with npos obtain m where m: "n = 2 * m + 2"
      by (metis Suc_pred add_2_eq_Suc' dvd_def even_Suc mult_2 oddE odd_pos)
    have h: "1 / 2 * real (n - 1) = real m + 1 / 2" by (simp add: m)
    have fl: "\<lfloor>real m + 1 / 2\<rfloor> = int m" by linarith
    have "quantile xs (1 / 2) = ?s ! m + (?s ! (m + 1) - ?s ! m) * (1 / 2)"
      unfolding quantile_def Let_def length_sort n_def [symmetric] h fl by (simp add: m)
    moreover have "median xs = (?s ! m + ?s ! (m + 1)) / 2"
      using False by (simp add: median_def Let_def n_def [symmetric]) (simp add: m)
    ultimately show ?thesis by (simp add: field_simps)
  qed
qed

lemma value_counts_null: "value_counts col None = null_bucket col"
proof -
  have "filter ((=) None) col = filter (\<lambda>x. x = None) col"
    by (rule filter_cong) auto
  then show ?thesis
    by (simp add: value_counts_def null_bucket_def count_list_eq_length_filter)
qed

lemma dom_value_counts: "dom (value_counts col) = set col"
  by (auto simp: value_counts_def dom_def)

text \<open>
  C7. On the empty final table the Quality Reporter returns the row count 0, no price
  statistic and empty frequency mappings. On every final table the median is the 50th
  percentile, and the 50th and the 95th percentile are the linear interpolation between
  the order statistics around the positions \<open>(n - 1) / 2\<close> and \<open>0.95 * (n - 1)\<close> of
  the sorted prices; each frequency mapping has exactly the values of its column as keys,
  the missing value among them when a cell is missing, with the number of missing cells.
  The segment mapping is empty when the frame has no segment column.
\<close>

theorem quality_stats_empty_and_interpolated:
  "quality_stats (frame_of []) =
     Inr \<lparr> row_count = 0, price_min = None, price_max = None, price_avg = None,
           price_p50 = None, price_p95 = None, by_region = Map.empty,
           by_category = Map.empty, by_segment = Map.empty \<rparr> \<and>
   (\<forall>st. quality_stats (frame_of df_out) = Inr st \<longrightarrow>
      row_count st = int (length df_out) \<and>
      (dropna (map o_price_gbp df_out) \<noteq> [] \<longrightarrow>
         price_p50 st = Some (median (dropna (map o_price_gbp df_out))) \<and>
         price_p50 st =
           Some (interpolate (sort (dropna (map o_price_gbp df_out)))
                   (1 / 2 * real (length (dropna (map o_price_gbp df_out)) - 1))) \<and>
         price_p95 st =
           Some (interpolate (sort (dropna (map o_price_gbp df_out)))
                   (95 / 100 * real (length (dropna (map o_price_gbp df_out)) - 1)))) \<and>
      by_region st None = null_bucket (map o_region df_out) \<and>
      by_category st None = null_bucket (map o_category df_out) \<and>
      by_segment st None = null_bucket (map o_segment df_out) \<and>
      dom (by_region st) = set (map o_region df_out) \<and>
      dom (by_category st) = set (map o_category df_out) \<and>
      dom (by_segment st) = set (map o_segment df_out)) \<and>
   (\<forall>st. quality_stats df = Inr st \<and> sf_segment df = None \<longrightarrow> by_segment st = Map.empty)"
proof -
  let ?price = "dropna (map o_price_gbp df_out)"
  have empty: "quality_stats (frame_of []) =
     Inr \<lparr> row_count = 0, price_min = None, price_max = None, price_avg = None,
           price_p50 = None, price_p95 = None, by_region = Map.empty,
           by_category = Map.empty, by_segment = Map.empty \<rparr>"
    by (simp add: quality_stats_frame_of stats_of_def dropna_def value_counts_def)
  have p50: "price_p50 (stats_of df_out) = Some (median ?price)"
    and p50i: "price_p50 (stats_of df_out)
        = Some (interpolate (sort ?price) (1 / 2 * real (length ?price - 1)))"
    and p95: "price_p95 (stats_of df_out)
        = Some (interpolate (sort ?price) (95 / 100 * real (length ?price - 1)))"
    if "?price \<noteq> []"
    using that quantile_median [OF that] quantile_interpolate [OF that, of "1 / 2"]
      quantile_interpolate [OF that, of "95 / 100"]
    by (simp_all add: stats_of_def Let_def)
  have maps: "by_region (stats_of df_out) None = null_bucket (map o_region df_out)"
    "by_category (stats_of df_out) None = null_bucket (map o_category df_out)"
    "by_segment (stats_of df_out) None = null_bucket (map o_segment df_out)"
    "dom (by_region (stats_of df_out)) = set (map o_region df_out)"
    "dom (by_category (stats_of df_out)) = set (map o_category df_out)"
    "dom (by_segment (stats_of df_out)) = set (map o_segment df_out)"
    "row_count (stats_of df_out) = int (length df_out)"
    by (simp_all add: stats_of_def Let_def value_counts_null dom_value_counts)
  have noseg: "by_segment st = Map.empty" if "quality_stats df = Inr st" "sf_segment df = None" for st
    using that by (auto simp: quality_stats_def split: option.splits)
  show ?thesis
    unfolding quality_stats_frame_of using empty p50 p50i p95 maps noseg
    by (auto simp: quality_stats_frame_of)
qed

lemma demo_out_prices: "dropna (map o_price_gbp demo_out) = [10, 12]" by code_simp

lemma demo_out_p50: "median [10, 12] = 11" by code_simp

lemma demo_out_p95: "interpolate [10, 12] (19 / 20) = 119 / 10" by code_simp

lemma demo_out_null_segment: "null_bucket (map o_segment demo_out) = Some 1" by code_simp

theorem quality_stats_empty_and_interpolated_witness:
  "quality_stats (frame_of demo_out) = Inr (stats_of demo_out) \<and>
   dropna (map o_price_gbp demo_out) = [10, 12] \<and>
   row_count (stats_of demo_out) = 2 \<and>
   price_p50 (stats_of demo_out) = Some 11 \<and>
   price_p95 (stats_of demo_out) = Some (119 / 10) \<and>
   by_segment (stats_of demo_out) None = Some 1 \<and>
   quality_stats (frame_of demo_out\<lparr>sf_segment := None\<rparr>)
     = Inr ((stats_of demo_out)\<lparr>by_segment := Map.empty\<rparr>)"
proof -
  have len: "int (length demo_out) = 2" by (simp add: demo_out_def)
  have noseg: "quality_stats (frame_of demo_out\<lparr>sf_segment := None\<rparr>)
     = Inr ((stats_of demo_out)\<lparr>by_segment := Map.empty\<rparr>)"
    by (simp add: quality_stats_def frame_of_def stats_of_def Let_def)
  show ?thesis
    using quality_stats_empty_and_interpolated [of demo_out "frame_of demo_out\<lparr>sf_segment := None\<rparr>"]
      quality_stats_frame_of [of demo_out] noseg
    by (simp add: demo_out_prices demo_out_p50 demo_out_p95 demo_out_null_segment len)
qed

end
